theory Spec2Isabelle
  imports Main "HOL-Library.Multiset"
begin

text \<open>
  The certificate server of \<open>server.js\<close>: the handlers of \<open>/api/simple_generate\<close>,
  \<open>/api/simple_certificate\<close> and \<open>/api/stats\<close>, the flag \<open>useInMemoryStore\<close> with the
  callbacks that write it, the array \<open>inMemoryStore\<close> and the durable collection behind
  \<open>SimpleCertificate\<close>. The file holds two versions of the server; this is the first, the
  one with the in-memory fallback, and the line numbers below are its own.

  A handler is a function from the state of the server to an outcome: the response, the
  state it leaves and the store operations it performed. JavaScript runs a handler
  without interruption up to its next \<open>await\<close>; what happens while a request is suspended
  there is given by a schedule. The draws of \<open>Math.random\<close> and the value of \<open>new Date()\<close>
  are parameters. The durable collection is a list of documents on which \<open>findOne\<close>
  returns the first match and \<open>save\<close> applies the setters, validators and unique index
  that \<open>simpleCertificateSchema\<close> declares. Timestamps are integers (milliseconds).
\<close>

section \<open>Strings, request values and the e-mail pattern\<close>

text \<open>
  A JavaScript string is modelled as a \<^typ>\<open>string\<close>: a list of code units, restricted to the
  code units below 256 (the Latin-1 range). \<open>is_space\<close> is the white space of that range; it is
  what \<open>String.prototype.trim\<close> strips and what the class \<open>\s\<close> of a regular expression
  matches.
\<close>

definition is_space :: "char \<Rightarrow> bool" where
  "is_space c =
     (let n = (of_char c :: nat)
      in n = 9 \<or> n = 10 \<or> n = 11 \<or> n = 12 \<or> n = 13 \<or> n = 32 \<or> n = 160)"

definition trim :: "string \<Rightarrow> string" where
  "trim s = rev (dropWhile is_space (rev (dropWhile is_space s)))"

definition lower_char :: "char \<Rightarrow> char" where
  "lower_char c =
     (let n = (of_char c :: nat)
      in if (65 \<le> n \<and> n \<le> 90) \<or> (192 \<le> n \<and> n \<le> 222 \<and> n \<noteq> 215)
         then char_of (n + 32) else c)"

definition toLowerCase :: "string \<Rightarrow> string" where
  "toLowerCase s = map lower_char s"

definition charAt :: "string \<Rightarrow> nat \<Rightarrow> string" where
  "charAt s i = (if i < length s then [s ! i] else [])"

text \<open>
  The values a parsed request body can hold for a key. \<open>JUndefined\<close> is the absent key;
  \<open>JObject\<close> stands for every array and object.
\<close>

datatype jsval = JUndefined | JNull | JBool bool | JNum int | JStr string | JObject

fun truthy :: "jsval \<Rightarrow> bool" where
  "truthy JUndefined = False"
| "truthy JNull = False"
| "truthy (JBool b) = b"
| "truthy (JNum n) = (n \<noteq> 0)"
| "truthy (JStr s) = (s \<noteq> [])"
| "truthy JObject = True"

text \<open>
  The pattern \<open>/^[^\s@]+@[^\s@]+\.[^\s@]+$/\<close> is a sequence of items, each either one
  literal character or one or more characters that are neither white space nor \<open>@\<close>.
  \<open>regex_test\<close> is the backtracking match of the whole string against the sequence
  (the pattern is anchored at both ends).
\<close>

datatype regex_item = Lit char | Plus_not_space_at

definition not_space_at :: "char \<Rightarrow> bool" where
  "not_space_at c = (\<not> is_space c \<and> c \<noteq> CHR ''@'')"

fun regex_test :: "regex_item list \<Rightarrow> string \<Rightarrow> bool" where
  "regex_test [] s = (s = [])"
| "regex_test (Lit c # r) [] = False"
| "regex_test (Lit c # r) (x # xs) = (x = c \<and> regex_test r xs)"
| "regex_test (Plus_not_space_at # r) [] = False"
| "regex_test (Plus_not_space_at # r) (x # xs) =
     (not_space_at x \<and> (regex_test (Plus_not_space_at # r) xs \<or> regex_test r xs))"

definition emailRegex :: "regex_item list" where
  "emailRegex =
     [Plus_not_space_at, Lit (CHR ''@''), Plus_not_space_at, Lit (CHR ''.''), Plus_not_space_at]"

section \<open>Certificate records and the two stores\<close>

record certificate =
  reference_id :: string
  user_name :: string
  user_email :: string
  certificate_type :: string
  timestamp :: int
  downloaded :: bool
  download_count :: nat

text \<open>
  The options of one path of \<open>simpleCertificateSchema\<close>, and the three paths whose options
  the model uses. \<open>index\<close> asks for a plain index and rejects nothing.
\<close>

record path_options =
  required :: bool
  unique :: bool
  index :: bool
  lowercase :: bool

record certificate_schema =
  reference_id_path :: path_options
  user_name_path :: path_options
  user_email_path :: path_options

definition simpleCertificateSchema :: certificate_schema where
  "simpleCertificateSchema =
     \<lparr> reference_id_path =
         \<lparr> required = True, unique = True, index = True, lowercase = False \<rparr>,
       user_name_path =
         \<lparr> required = True, unique = False, index = False, lowercase = False \<rparr>,
       user_email_path =
         \<lparr> required = True, unique = False, index = True, lowercase = True \<rparr> \<rparr>"

datatype js_error = TypeError | ValidationError | DuplicateKeyError

definition set_path :: "path_options \<Rightarrow> string \<Rightarrow> string" where
  "set_path opts v = (if lowercase opts then toLowerCase v else v)"

definition apply_setters :: "certificate_schema \<Rightarrow> certificate \<Rightarrow> certificate" where
  "apply_setters sch c =
     c \<lparr> reference_id := set_path (reference_id_path sch) (reference_id c),
         user_name := set_path (user_name_path sch) (user_name c),
         user_email := set_path (user_email_path sch) (user_email c) \<rparr>"

definition violates_required :: "path_options \<Rightarrow> string \<Rightarrow> bool" where
  "violates_required opts v = (required opts \<and> v = [])"

definition violates_unique :: "path_options \<Rightarrow> string \<Rightarrow> string list \<Rightarrow> bool" where
  "violates_unique opts v stored = (unique opts \<and> v \<in> set stored)"

text \<open>
  Saving a new document in the durable collection: the setters of the schema run, the
  required paths are validated (an empty string fails), and the collection refuses a
  document that repeats the value of a unique path. The collection is the list of its
  documents in insertion order.
\<close>

definition save_new ::
  "certificate_schema \<Rightarrow> certificate \<Rightarrow> certificate list \<Rightarrow> js_error + certificate list" where
  "save_new sch c0 db =
     (let c = apply_setters sch c0
      in if violates_required (reference_id_path sch) (reference_id c)
            \<or> violates_required (user_name_path sch) (user_name c)
            \<or> violates_required (user_email_path sch) (user_email c)
         then Inl ValidationError
         else if violates_unique (reference_id_path sch) (reference_id c) (map reference_id db)
            \<or> violates_unique (user_name_path sch) (user_name c) (map user_name db)
            \<or> violates_unique (user_email_path sch) (user_email c) (map user_email db)
         then Inl DuplicateKeyError
         else Inr (db @ [c]))"

text \<open>
  \<open>update_first P f xs\<close> changes the first element that satisfies \<open>P\<close>: the object that
  \<open>Array.prototype.find\<close> or \<open>findOne\<close> returned, mutated in place or saved back.
\<close>

fun update_first :: "('a \<Rightarrow> bool) \<Rightarrow> ('a \<Rightarrow> 'a) \<Rightarrow> 'a list \<Rightarrow> 'a list" where
  "update_first P f [] = []"
| "update_first P f (x # xs) = (if P x then f x # xs else x # update_first P f xs)"

text \<open>
  Saving a document that was read from the durable collection and changed: the required
  paths are validated again, and the two paths the lookup changes are written to the
  stored document. The unique paths are not written, so the save cannot conflict.
\<close>

definition save_existing ::
  "certificate_schema \<Rightarrow> certificate \<Rightarrow> certificate list \<Rightarrow> js_error + certificate list" where
  "save_existing sch c db =
     (if violates_required (reference_id_path sch) (reference_id c)
         \<or> violates_required (user_name_path sch) (user_name c)
         \<or> violates_required (user_email_path sch) (user_email c)
      then Inl ValidationError
      else Inr (update_first (\<lambda>d. reference_id d = reference_id c)
                  (\<lambda>d. d \<lparr> downloaded := downloaded c,
                           download_count := download_count c \<rparr>) db))"

record server =
  useInMemoryStore :: bool
  inMemoryStore :: "certificate list"
  mongo :: "certificate list"

definition active_store :: "server \<Rightarrow> certificate list" where
  "active_store s = (if useInMemoryStore s then inMemoryStore s else mongo s)"

section \<open>The connection events\<close>

text \<open>
  The callbacks that write \<open>useInMemoryStore\<close>: the two outcomes of the first
  \<open>mongoose.connect\<close> and the listeners of the connection. \<open>Other_save c\<close> is not a
  callback of this file: it is another writer's insert of \<open>c\<close> reaching the durable
  collection (another request in flight), under the same schema.
\<close>

datatype event =
    Connect_resolved
  | Connect_rejected
  | Connected
  | Disconnected
  | Connection_error
  | Other_save certificate

fun deliver :: "event \<Rightarrow> server \<Rightarrow> server" where
  "deliver Connect_resolved s = s \<lparr> useInMemoryStore := False \<rparr>"
| "deliver Connect_rejected s = s \<lparr> useInMemoryStore := True \<rparr>"
| "deliver Connected s = s \<lparr> useInMemoryStore := False \<rparr>"
| "deliver Disconnected s = s \<lparr> useInMemoryStore := True \<rparr>"
| "deliver Connection_error s = s"
| "deliver (Other_save c) s =
     (case save_new simpleCertificateSchema c (mongo s) of
        Inl e \<Rightarrow> s
      | Inr db \<Rightarrow> s \<lparr> mongo := db \<rparr>)"

text \<open>
  The state in which the process starts serving: the flag as line 31 initialises it, the
  array empty, the durable collection holding whatever it held (\<open>db\<close>). No callback has
  run yet, so this is also the state while the first connection attempt is pending.
\<close>

definition init_server :: "certificate list \<Rightarrow> server" where
  "init_server db = \<lparr> useInMemoryStore = False, inMemoryStore = [], mongo = db \<rparr>"

text \<open>
  A handler runs without interruption except at an \<open>await\<close>. A schedule gives, for the
  k-th \<open>await\<close> a request reaches, the events delivered while the request is suspended
  there, after the awaited operation took effect. \<open>quiet\<close> delivers nothing: the request
  runs alone.
\<close>

type_synonym schedule = "nat \<Rightarrow> event list"

definition await :: "schedule \<Rightarrow> nat \<Rightarrow> server \<Rightarrow> server" where
  "await sched k s = fold deliver (sched k) s"

definition quiet :: schedule where
  "quiet = (\<lambda>k. [])"

section \<open>Responses\<close>

text \<open>One element of the \<open>recent\<close> list of the statistics: the selected fields.\<close>

record recent_entry =
  entry_id :: string
  entry_name :: string
  entry_email :: string
  entry_timestamp :: int
  entry_downloaded :: bool
  entry_download_count :: nat

datatype body =
    Failure (error: string)
  | Generated (existing: bool) (generated_id: string) (generated_name: string)
      (generated_email: string) (message: string)
  | Found (found_id: string) (found_name: string) (found_email: string)
      (found_type: string) (found_timestamp: int)
  | Stats (total: nat) (downloaded_total: nat) (pending: int) (recent: "recent_entry list")

text \<open>
  \<open>Failure e\<close> is \<open>{success: false, error: e}\<close>; the other bodies carry \<open>success: true\<close>.
  \<open>existing\<close> is True where the body has the key \<open>existing: true\<close> and False where the
  body has no such key.
\<close>

datatype backend = Durable | InMemory

datatype store_op =
  Find_by_email | Find_by_reference_id | Insert | Mark_downloaded | Count | List_recent

text \<open>
  What one request did: the status and body it answered, the state it left, and the store
  operations it performed, in order, each with the store it addressed.
\<close>

record outcome =
  status :: nat
  body :: body
  final :: server
  accesses :: "(backend \<times> store_op) list"

definition respond ::
  "nat \<Rightarrow> body \<Rightarrow> (backend \<times> store_op) list \<Rightarrow> server \<Rightarrow> outcome" where
  "respond st b log s = \<lparr> status = st, body = b, final = s, accesses = log \<rparr>"

section \<open>POST /api/simple\_generate\<close>

definition chars :: string where
  "chars = ''0123456789ABCDEFGHIJKLMNOPQRSTUVWXYZ''"

text \<open>
  \<open>rnd j\<close> is the value of \<open>Math.floor(Math.random() * chars.length)\<close> at the j-th draw of
  the request; \<open>generateRandomCode rnd pos\<close> uses the five draws from \<open>pos\<close> on.
\<close>

definition generateRandomCode :: "(nat \<Rightarrow> nat) \<Rightarrow> nat \<Rightarrow> string" where
  "generateRandomCode rnd pos = fold (\<lambda>i code. code @ charAt chars (rnd (pos + i))) [0..<5] []"

definition candidate :: "(nat \<Rightarrow> nat) \<Rightarrow> nat \<Rightarrow> string" where
  "candidate rnd pos = ''CSAC2025-'' @ generateRandomCode rnd pos"

text \<open>
  The loop \<open>while (!isUnique)\<close> (lines 189 to 197). Each round reads the flag again; the
  durable lookup is awaited, the array lookup is not. The loop has no bound, so the model
  is a partial function: \<open>None\<close> is the loop that never ends. The result is the chosen id,
  the number of the next \<open>await\<close>, the log and the state.
\<close>

partial_function (option) unique_reference_id ::
  "schedule \<Rightarrow> (nat \<Rightarrow> nat) \<Rightarrow> nat \<Rightarrow> nat \<Rightarrow> (backend \<times> store_op) list \<Rightarrow> server
     \<Rightarrow> (string \<times> nat \<times> (backend \<times> store_op) list \<times> server) option" where
  "unique_reference_id sched rnd k pos log s =
     (if useInMemoryStore s
      then (if find (\<lambda>c. reference_id c = candidate rnd pos) (inMemoryStore s) = None
            then Some (candidate rnd pos, k, log @ [(InMemory, Find_by_reference_id)], s)
            else unique_reference_id sched rnd k (pos + 5)
                   (log @ [(InMemory, Find_by_reference_id)]) s)
      else (if find (\<lambda>c. reference_id c = candidate rnd pos) (mongo s) = None
            then Some (candidate rnd pos, Suc k, log @ [(Durable, Find_by_reference_id)],
                       await sched k s)
            else unique_reference_id sched rnd (Suc k) (pos + 5)
                   (log @ [(Durable, Find_by_reference_id)]) (await sched k s)))"

declare unique_reference_id.simps [code]

definition new_certificate :: "string \<Rightarrow> string \<Rightarrow> string \<Rightarrow> int \<Rightarrow> certificate" where
  "new_certificate rid cleanName cleanEmail now =
     \<lparr> reference_id = rid, user_name = cleanName, user_email = cleanEmail,
       certificate_type = ''Attended'', timestamp = now,
       downloaded = False, download_count = 0 \<rparr>"

text \<open>
  Lines 199 to 243: the flag is read once more and the record goes to the array or to the
  durable collection. A rejected \<open>save\<close> throws; the \<open>catch\<close> of the handler answers 500.
\<close>

definition store_certificate ::
  "schedule \<Rightarrow> nat \<Rightarrow> string \<Rightarrow> string \<Rightarrow> string \<Rightarrow> int \<Rightarrow> (backend \<times> store_op) list
     \<Rightarrow> server \<Rightarrow> outcome" where
  "store_certificate sched k rid cleanName cleanEmail now log s =
     (if useInMemoryStore s
      then respond 200
             (Generated False rid cleanName cleanEmail
                ''Certificate generated successfully (in-memory)!'')
             (log @ [(InMemory, Insert)])
             (s \<lparr> inMemoryStore :=
                    inMemoryStore s @ [new_certificate rid cleanName cleanEmail now] \<rparr>)
      else (case save_new simpleCertificateSchema
                   (new_certificate rid cleanName cleanEmail now) (mongo s) of
              Inl e \<Rightarrow>
                respond 500 (Failure ''Internal server error'')
                  (log @ [(Durable, Insert)]) (await sched k s)
            | Inr db \<Rightarrow>
                respond 200
                  (Generated False rid cleanName cleanEmail
                     ''Certificate generated successfully!'')
                  (log @ [(Durable, Insert)]) (await sched k (s \<lparr> mongo := db \<rparr>))))"

definition generate_fresh ::
  "schedule \<Rightarrow> (nat \<Rightarrow> nat) \<Rightarrow> int \<Rightarrow> string \<Rightarrow> string \<Rightarrow> nat \<Rightarrow> (backend \<times> store_op) list
     \<Rightarrow> server \<Rightarrow> outcome option" where
  "generate_fresh sched rnd now cleanName cleanEmail k log s =
     (case unique_reference_id sched rnd k 0 log s of
        None \<Rightarrow> None
      | Some (rid, k', log', s') \<Rightarrow>
          Some (store_certificate sched k' rid cleanName cleanEmail now log' s'))"

definition existing_body :: "certificate \<Rightarrow> string \<Rightarrow> body" where
  "existing_body c msg = Generated True (reference_id c) (user_name c) (user_email c) msg"

text \<open>
  The handler. \<open>now\<close> is the value of \<open>new Date()\<close>. A truthy \<open>name\<close> or \<open>email\<close> that is
  not a string has no \<open>trim\<close>: the call throws a TypeError inside the \<open>try\<close>, and the
  \<open>catch\<close> answers 500.
\<close>

definition simple_generate ::
  "schedule \<Rightarrow> (nat \<Rightarrow> nat) \<Rightarrow> int \<Rightarrow> jsval \<Rightarrow> jsval \<Rightarrow> server \<Rightarrow> outcome option" where
  "simple_generate sched rnd now name email s =
     (if \<not> truthy name \<or> \<not> truthy email
      then Some (respond 400 (Failure ''Name and email are required'') [] s)
      else (case (name, email) of
              (JStr n, JStr e) \<Rightarrow>
                (let cleanName = trim n;
                     cleanEmail = toLowerCase (trim e)
                 in if \<not> regex_test emailRegex cleanEmail
                    then Some (respond 400 (Failure ''Invalid email format'') [] s)
                    else if useInMemoryStore s
                    then (case find (\<lambda>c. user_email c = cleanEmail) (inMemoryStore s) of
                            Some c \<Rightarrow>
                              Some (respond 200
                                      (existing_body c
                                         ''Certificate already generated for this email (in-memory)'')
                                      [(InMemory, Find_by_email)] s)
                          | None \<Rightarrow>
                              generate_fresh sched rnd now cleanName cleanEmail 0
                                [(InMemory, Find_by_email)] s)
                    else (case find (\<lambda>c. user_email c = cleanEmail) (mongo s) of
                            Some c \<Rightarrow>
                              Some (respond 200
                                      (existing_body c
                                         ''Certificate already generated for this email'')
                                      [(Durable, Find_by_email)] (await sched 0 s))
                          | None \<Rightarrow>
                              generate_fresh sched rnd now cleanName cleanEmail 1
                                [(Durable, Find_by_email)] (await sched 0 s)))
            | _ \<Rightarrow> Some (respond 500 (Failure ''Internal server error'') [] s)))"

section \<open>GET /api/simple\_certificate\<close>

definition found_body :: "certificate \<Rightarrow> body" where
  "found_body c =
     Found (reference_id c) (user_name c) (user_email c) (certificate_type c) (timestamp c)"

text \<open>
  The \<open>id\<close> of the query string (\<open>qid\<close>) is absent (\<open>None\<close>) or a string; the arrays and objects a
  query string can also be parsed into are not modelled. In the array the object found is
  changed in place. In the durable collection the document read is changed and saved
  back: the save writes the flag and the count computed from the copy that was read, and
  a save that fails its validation throws, which the \<open>catch\<close> answers with 500.
\<close>

definition simple_certificate :: "schedule \<Rightarrow> string option \<Rightarrow> server \<Rightarrow> outcome" where
  "simple_certificate sched qid s =
     (case qid of
        None \<Rightarrow> respond 400 (Failure ''Certificate ID is required'') [] s
      | Some i \<Rightarrow>
          if i = [] then respond 400 (Failure ''Certificate ID is required'') [] s
          else if useInMemoryStore s
          then (case find (\<lambda>c. reference_id c = i) (inMemoryStore s) of
                  None \<Rightarrow>
                    respond 404 (Failure ''Certificate not found (in-memory)'')
                      [(InMemory, Find_by_reference_id)] s
                | Some c \<Rightarrow>
                    respond 200 (found_body c)
                      [(InMemory, Find_by_reference_id), (InMemory, Mark_downloaded)]
                      (s \<lparr> inMemoryStore :=
                             update_first (\<lambda>d. reference_id d = i)
                               (\<lambda>d. d \<lparr> downloaded := True,
                                        download_count := download_count d + 1 \<rparr>)
                               (inMemoryStore s) \<rparr>))
          else (case find (\<lambda>c. reference_id c = i) (mongo s) of
                  None \<Rightarrow>
                    respond 404 (Failure ''Certificate not found'')
                      [(Durable, Find_by_reference_id)] (await sched 0 s)
                | Some c \<Rightarrow>
                    (let s1 = await sched 0 s;
                         certificate =
                           c \<lparr> downloaded := True, download_count := download_count c + 1 \<rparr>
                     in case save_existing simpleCertificateSchema certificate (mongo s1) of
                          Inl e \<Rightarrow>
                            respond 500 (Failure ''Internal server error'')
                              [(Durable, Find_by_reference_id), (Durable, Mark_downloaded)]
                              (await sched 1 s1)
                        | Inr db \<Rightarrow>
                            respond 200 (found_body certificate)
                              [(Durable, Find_by_reference_id), (Durable, Mark_downloaded)]
                              (await sched 1 (s1 \<lparr> mongo := db \<rparr>)))))"

section \<open>GET /api/stats\<close>

definition project_recent :: "certificate \<Rightarrow> recent_entry" where
  "project_recent c =
     \<lparr> entry_id = reference_id c, entry_name = user_name c, entry_email = user_email c,
       entry_timestamp = timestamp c, entry_downloaded = downloaded c,
       entry_download_count = download_count c \<rparr>"

text \<open>
  The sort by \<open>new Date(b.timestamp) - new Date(a.timestamp)\<close>, and the durable
  \<open>sort({timestamp: -1})\<close>: a stable sort by descending timestamp.
\<close>

definition newest_first :: "certificate list \<Rightarrow> certificate list" where
  "newest_first xs = sort_key (\<lambda>c. - timestamp c) xs"

definition stats_body :: "nat \<Rightarrow> nat \<Rightarrow> certificate list \<Rightarrow> body" where
  "stats_body totalCertificates downloadedCertificates recentCertificates =
     Stats totalCertificates downloadedCertificates
       (int totalCertificates - int downloadedCertificates)
       (map project_recent recentCertificates)"

definition stats :: "schedule \<Rightarrow> server \<Rightarrow> outcome" where
  "stats sched s =
     (if useInMemoryStore s
      then respond 200
             (stats_body (length (inMemoryStore s))
                (length (filter downloaded (inMemoryStore s)))
                (take 10 (newest_first (inMemoryStore s))))
             [(InMemory, Count), (InMemory, Count), (InMemory, List_recent)] s
      else (let totalCertificates = length (mongo s);
                s1 = await sched 0 s;
                downloadedCertificates = length (filter downloaded (mongo s1));
                s2 = await sched 1 s1;
                recentCertificates = take 10 (newest_first (mongo s2));
                s3 = await sched 2 s2
            in respond 200
                 (stats_body totalCertificates downloadedCertificates recentCertificates)
                 [(Durable, Count), (Durable, Count), (Durable, List_recent)] s3))"


section \<open>Example states\<close>

definition cert_a :: certificate where
  "cert_a =
     \<lparr> reference_id = ''CSAC2025-00000'', user_name = ''Ada Lovelace'',
       user_email = ''ada@example.com'', certificate_type = ''Attended'', timestamp = 5,
       downloaded = False, download_count = 0 \<rparr>"

definition cert_b :: certificate where
  "cert_b =
     \<lparr> reference_id = ''CSAC2025-7Q2ZK'', user_name = ''Bob'',
       user_email = ''bob@example.com'', certificate_type = ''Attended'', timestamp = 7,
       downloaded = True, download_count = 3 \<rparr>"

definition memory_server :: "certificate list \<Rightarrow> server" where
  "memory_server xs = \<lparr> useInMemoryStore = True, inMemoryStore = xs, mongo = [] \<rparr>"

text \<open>
  The store a request would address if it read the flag in state \<open>s\<close>, and the schedules
  that deliver no event selecting the array (no \<open>disconnected\<close>, no rejected connect).
\<close>

definition selected :: "server \<Rightarrow> backend" where
  "selected s = (if useInMemoryStore s then InMemory else Durable)"

definition calm :: "schedule \<Rightarrow> bool" where
  "calm sched = (\<forall>k. \<forall>e \<in> set (sched k). e \<noteq> Disconnected \<and> e \<noteq> Connect_rejected)"

text \<open>
  Two ways to write a concrete run: the draws that are all \<open>d\<close>, and the schedule that
  delivers the events \<open>es\<close> at the await number \<open>k0\<close> and nothing elsewhere.
\<close>

definition always :: "nat \<Rightarrow> nat \<Rightarrow> nat" where
  "always d = (\<lambda>j. d)"

definition at_await :: "nat \<Rightarrow> event list \<Rightarrow> schedule" where
  "at_await k0 es = (\<lambda>k. if k = k0 then es else [])"

section \<open>Basic facts\<close>

lemma await_quiet: "await quiet k s = s"
  by (simp add: await_def quiet_def)

lemma of_char_lower_char:
  "(of_char (lower_char c) :: nat) =
     (let n = of_char c
      in if (65 \<le> n \<and> n \<le> 90) \<or> (192 \<le> n \<and> n \<le> 222 \<and> n \<noteq> 215) then n + 32 else n)"
  by (simp add: lower_char_def Let_def of_char_of)

lemma lower_char_idem: "lower_char (lower_char c) = lower_char c"
proof -
  have "(of_char (lower_char (lower_char c)) :: nat) = of_char (lower_char c)"
    by (simp add: of_char_lower_char Let_def)
  then show ?thesis by simp
qed

lemma toLowerCase_idem: "toLowerCase (toLowerCase s) = toLowerCase s"
  by (simp add: toLowerCase_def lower_char_idem)

section \<open>Statistics\<close>








section \<open>Lookup without an id\<close>

text \<open>
  C10. A lookup whose \<open>id\<close> is absent or empty is answered 400 with the error
  \<open>Certificate ID is required\<close>, whatever the schedule and the state: no store is read
  (the log of accesses is empty, and the answer is the same in every state) and the
  state is left as it was. The status is not the 404 of a record that is not found.
\<close>

theorem missing_id_rejected:
  assumes "qid = None \<or> qid = Some []"
  shows "status (simple_certificate sched qid s) = 400
       \<and> status (simple_certificate sched qid s) \<noteq> 404
       \<and> body (simple_certificate sched qid s) = Failure ''Certificate ID is required''
       \<and> final (simple_certificate sched qid s) = s
       \<and> accesses (simple_certificate sched qid s) = []
       \<and> simple_certificate sched qid s = simple_certificate sched' qid s' \<lparr> final := s \<rparr>"
  using assms by (auto simp add: simple_certificate_def respond_def)

theorem missing_id_rejected_witness:
  "simple_certificate quiet (Some []) (memory_server [cert_a]) =
     respond 400 (Failure ''Certificate ID is required'') [] (memory_server [cert_a])"
  using missing_id_rejected [of "Some []" quiet "memory_server [cert_a]"]
  by (simp add: simple_certificate_def)

section \<open>Events, saving and the random code\<close>

lemma deliver_inMemoryStore: "inMemoryStore (deliver e s) = inMemoryStore s"
  by (cases e) (auto split: sum.splits)

lemma fold_deliver_inMemoryStore: "inMemoryStore (fold deliver es s) = inMemoryStore s"
  by (induction es arbitrary: s) (simp_all add: deliver_inMemoryStore)

lemma await_inMemoryStore: "inMemoryStore (await sched k s) = inMemoryStore s"
  by (simp add: await_def fold_deliver_inMemoryStore)

lemma deliver_stays_durable:
  "e \<noteq> Disconnected \<Longrightarrow> e \<noteq> Connect_rejected \<Longrightarrow> \<not> useInMemoryStore s
     \<Longrightarrow> \<not> useInMemoryStore (deliver e s)"
  by (cases e) (auto split: sum.splits)

lemma fold_deliver_stays_durable:
  "\<forall>e \<in> set es. e \<noteq> Disconnected \<and> e \<noteq> Connect_rejected \<Longrightarrow> \<not> useInMemoryStore s
     \<Longrightarrow> \<not> useInMemoryStore (fold deliver es s)"
  by (induction es arbitrary: s) (simp_all add: deliver_stays_durable)

lemma await_stays_durable:
  "calm sched \<Longrightarrow> \<not> useInMemoryStore s \<Longrightarrow> \<not> useInMemoryStore (await sched k s)"
  unfolding await_def calm_def by (rule fold_deliver_stays_durable) auto

lemma calm_quiet: "calm quiet"
  by (simp add: calm_def quiet_def)

lemma selected_await:
  "calm sched \<Longrightarrow> selected s = Durable \<Longrightarrow> selected (await sched k s) = Durable"
  using await_stays_durable [of sched s k] by (simp add: selected_def split: if_splits)

lemma save_new_simple:
  "save_new simpleCertificateSchema c db =
     (if reference_id c = [] \<or> user_name c = [] \<or> user_email c = [] then Inl ValidationError
      else if reference_id c \<in> reference_id ` set db then Inl DuplicateKeyError
      else Inr (db @ [c \<lparr> user_email := toLowerCase (user_email c) \<rparr>]))"
  by (simp add: save_new_def simpleCertificateSchema_def apply_setters_def set_path_def
      violates_required_def violates_unique_def toLowerCase_def)

lemma regex_nonempty: "regex_test emailRegex x \<Longrightarrow> x \<noteq> []"
  by (cases x) (simp_all add: emailRegex_def)

lemma trim_Nil: "trim [] = []"
  by (simp add: trim_def)

lemma chars_length: "length chars = 36"
  by (simp add: chars_def)

lemma generateRandomCode_unfold:
  "generateRandomCode rnd pos =
     charAt chars (rnd pos) @ charAt chars (rnd (pos + 1)) @ charAt chars (rnd (pos + 2))
       @ charAt chars (rnd (pos + 3)) @ charAt chars (rnd (pos + 4))"
proof -
  have "[0..<5] = [0, 1, 2, 3, 4::nat]"
    by (simp add: upt_rec)
  then show ?thesis by (simp add: generateRandomCode_def)
qed

lemma generateRandomCode_shape:
  assumes "\<forall>j. rnd j < 36"
  shows "length (generateRandomCode rnd pos) = 5
       \<and> set (generateRandomCode rnd pos) \<subseteq> set chars"
  using assms by (simp add: generateRandomCode_unfold charAt_def chars_length)

lemma candidate_prefix: "take 9 (candidate rnd p) = ''CSAC2025-''"
  by (simp add: candidate_def)



section \<open>The loop that draws a reference id\<close>

text \<open>
  Induction over the rounds of a loop that returned, with the schedule and the draws
  fixed: one case for each way a round ends.
\<close>

lemma unique_reference_id_induct
  [consumes 1, case_names found_memory retry_memory found_durable retry_durable]:
  assumes run: "unique_reference_id sched rnd k pos log s = Some r"
    and found_memory: "\<And>k pos log s.
          useInMemoryStore s \<Longrightarrow>
          find (\<lambda>c. reference_id c = candidate rnd pos) (inMemoryStore s) = None \<Longrightarrow>
          P k pos log s (candidate rnd pos, k, log @ [(InMemory, Find_by_reference_id)], s)"
    and retry_memory: "\<And>k pos log s r.
          useInMemoryStore s \<Longrightarrow>
          find (\<lambda>c. reference_id c = candidate rnd pos) (inMemoryStore s) \<noteq> None \<Longrightarrow>
          P k (pos + 5) (log @ [(InMemory, Find_by_reference_id)]) s r \<Longrightarrow>
          P k pos log s r"
    and found_durable: "\<And>k pos log s.
          \<not> useInMemoryStore s \<Longrightarrow>
          find (\<lambda>c. reference_id c = candidate rnd pos) (mongo s) = None \<Longrightarrow>
          P k pos log s
            (candidate rnd pos, Suc k, log @ [(Durable, Find_by_reference_id)], await sched k s)"
    and retry_durable: "\<And>k pos log s r.
          \<not> useInMemoryStore s \<Longrightarrow>
          find (\<lambda>c. reference_id c = candidate rnd pos) (mongo s) \<noteq> None \<Longrightarrow>
          P (Suc k) (pos + 5) (log @ [(Durable, Find_by_reference_id)]) (await sched k s) r \<Longrightarrow>
          P k pos log s r"
  shows "P k pos log s r"
proof -
  have "sched = sched \<longrightarrow> rnd = rnd \<longrightarrow> P k pos log s r"
  proof (rule unique_reference_id.raw_induct
      [where P = "\<lambda>sched' rnd' k pos log s r. sched' = sched \<longrightarrow> rnd' = rnd \<longrightarrow> P k pos log s r",
        OF _ run])
    fix loop sched' rnd' k pos log s r
    assume IH: "\<And>sched' rnd' k pos log s r. loop sched' rnd' k pos log s = Some r
                  \<Longrightarrow> sched' = sched \<longrightarrow> rnd' = rnd \<longrightarrow> P k pos log s r"
      and body: "(if useInMemoryStore s
        then (if find (\<lambda>c. reference_id c = candidate rnd' pos) (inMemoryStore s) = None
              then Some (candidate rnd' pos, k, log @ [(InMemory, Find_by_reference_id)], s)
              else loop sched' rnd' k (pos + 5)
                     (log @ [(InMemory, Find_by_reference_id)]) s)
        else (if find (\<lambda>c. reference_id c = candidate rnd' pos) (mongo s) = None
              then Some (candidate rnd' pos, Suc k, log @ [(Durable, Find_by_reference_id)],
                         await sched' k s)
              else loop sched' rnd' (Suc k) (pos + 5)
                     (log @ [(Durable, Find_by_reference_id)]) (await sched' k s))) = Some r"
    show "sched' = sched \<longrightarrow> rnd' = rnd \<longrightarrow> P k pos log s r"
    proof (intro impI)
      assume eqs: "sched' = sched" "rnd' = rnd"
      consider (a) "useInMemoryStore s"
            "find (\<lambda>c. reference_id c = candidate rnd pos) (inMemoryStore s) = None"
        | (b) "useInMemoryStore s"
            "find (\<lambda>c. reference_id c = candidate rnd pos) (inMemoryStore s) \<noteq> None"
        | (c) "\<not> useInMemoryStore s"
            "find (\<lambda>c. reference_id c = candidate rnd pos) (mongo s) = None"
        | (d) "\<not> useInMemoryStore s"
            "find (\<lambda>c. reference_id c = candidate rnd pos) (mongo s) \<noteq> None"
        by blast
      then show "P k pos log s r"
      proof cases
        case a
        with body eqs have "r = (candidate rnd pos, k, log @ [(InMemory, Find_by_reference_id)], s)"
          by simp
        with a found_memory show ?thesis by simp
      next
        case b
        with body eqs have "loop sched rnd k (pos + 5) (log @ [(InMemory, Find_by_reference_id)]) s = Some r"
          by simp
        from IH[OF this] have "P k (pos + 5) (log @ [(InMemory, Find_by_reference_id)]) s r"
          by simp
        with b retry_memory show ?thesis by blast
      next
        case c
        with body eqs have "r = (candidate rnd pos, Suc k, log @ [(Durable, Find_by_reference_id)],
            await sched k s)"
          by simp
        with c found_durable show ?thesis by simp
      next
        case d
        with body eqs have "loop sched rnd (Suc k) (pos + 5)
            (log @ [(Durable, Find_by_reference_id)]) (await sched k s) = Some r"
          by simp
        from IH[OF this] have "P (Suc k) (pos + 5) (log @ [(Durable, Find_by_reference_id)])
            (await sched k s) r"
          by simp
        with d retry_durable show ?thesis by blast
      qed
    qed
  qed
  then show ?thesis by simp
qed

lemma unique_reference_id_candidate:
  assumes "unique_reference_id sched rnd k pos log s = Some r"
  shows "\<exists>p. fst r = candidate rnd p"
  using assms by (induction rule: unique_reference_id_induct) auto

lemma unique_reference_id_inMemoryStore:
  assumes "unique_reference_id sched rnd k pos log s = Some r"
  shows "inMemoryStore (snd (snd (snd r))) = inMemoryStore s"
  using assms by (induction rule: unique_reference_id_induct) (auto simp: await_inMemoryStore)

lemma unique_reference_id_alone:
  assumes "unique_reference_id sched rnd k pos log s = Some r"
    and "sched = quiet \<or> useInMemoryStore s"
  shows "\<exists>p k' n. r = (candidate rnd p, k', log @ replicate n (selected s, Find_by_reference_id), s)
           \<and> find (\<lambda>c. reference_id c = candidate rnd p) (active_store s) = None"
  using assms
proof (induction rule: unique_reference_id_induct)
  case (found_memory k pos log s)
  have "(candidate rnd pos, k, log @ [(InMemory, Find_by_reference_id)], s)
          = (candidate rnd pos, k, log @ replicate 1 (selected s, Find_by_reference_id), s)"
    using found_memory by (simp add: selected_def)
  moreover have "find (\<lambda>c. reference_id c = candidate rnd pos) (active_store s) = None"
    using found_memory by (simp add: active_store_def)
  ultimately show ?case by blast
next
  case (retry_memory k pos log s r)
  then obtain p k' n where
    "r = (candidate rnd p, k', (log @ [(InMemory, Find_by_reference_id)])
               @ replicate n (selected s, Find_by_reference_id), s)"
    and f: "find (\<lambda>c. reference_id c = candidate rnd p) (active_store s) = None"
    by blast
  with retry_memory have "r = (candidate rnd p, k', log @ replicate (Suc n) (selected s, Find_by_reference_id), s)"
    by (simp add: selected_def)
  with f show ?case by blast
next
  case (found_durable k pos log s)
  then have q: "sched = quiet" by simp
  have "(candidate rnd pos, Suc k, log @ [(Durable, Find_by_reference_id)], await sched k s)
          = (candidate rnd pos, Suc k, log @ replicate 1 (selected s, Find_by_reference_id), s)"
    using found_durable q by (simp add: selected_def await_quiet)
  moreover have "find (\<lambda>c. reference_id c = candidate rnd pos) (active_store s) = None"
    using found_durable by (simp add: active_store_def)
  ultimately show ?case by blast
next
  case (retry_durable k pos log s r)
  then have q: "sched = quiet" by simp
  with retry_durable obtain p k' n where
    "r = (candidate rnd p, k', (log @ [(Durable, Find_by_reference_id)])
               @ replicate n (selected s, Find_by_reference_id), s)"
    and f: "find (\<lambda>c. reference_id c = candidate rnd p) (active_store s) = None"
    by (auto simp add: await_quiet)
  with retry_durable have "r = (candidate rnd p, k', log @ replicate (Suc n) (selected s, Find_by_reference_id), s)"
    by (simp add: selected_def)
  with f show ?case by blast
qed

lemma unique_reference_id_calm:
  assumes "unique_reference_id sched rnd k pos log s = Some r"
    and "calm sched" and "\<not> useInMemoryStore s"
  shows "\<exists>p k' n s'. r = (candidate rnd p, k', log @ replicate n (Durable, Find_by_reference_id), s')
           \<and> \<not> useInMemoryStore s'"
  using assms
proof (induction rule: unique_reference_id_induct)
  case (found_memory k pos log s)
  then show ?case by simp
next
  case (retry_memory k pos log s r)
  then show ?case by simp
next
  case (found_durable k pos log s)
  have "log @ [(Durable, Find_by_reference_id)] = log @ replicate 1 (Durable, Find_by_reference_id)"
    by simp
  moreover have "\<not> useInMemoryStore (await sched k s)"
    using found_durable by (simp add: await_stays_durable)
  ultimately show ?case by blast
next
  case (retry_durable k pos log s r)
  have "\<not> useInMemoryStore (await sched k s)"
    using retry_durable by (simp add: await_stays_durable)
  with retry_durable obtain p k' n s' where
    "r = (candidate rnd p, k', (log @ [(Durable, Find_by_reference_id)])
               @ replicate n (Durable, Find_by_reference_id), s')"
    and f: "\<not> useInMemoryStore s'"
    by blast
  then have "r = (candidate rnd p, k', log @ replicate (Suc n) (Durable, Find_by_reference_id), s')"
    by simp
  with f show ?case by blast
qed

section \<open>The generate request\<close>

lemma store_certificate_alone:
  assumes "sched = quiet \<or> useInMemoryStore s" and "toLowerCase em = em"
  shows "store_certificate sched k rid nm em now log s =
     (if useInMemoryStore s
      then respond 200
             (Generated False rid nm em ''Certificate generated successfully (in-memory)!'')
             (log @ [(InMemory, Insert)])
             (s \<lparr> inMemoryStore := inMemoryStore s @ [new_certificate rid nm em now] \<rparr>)
      else if rid = [] \<or> nm = [] \<or> em = [] \<or> rid \<in> reference_id ` set (mongo s)
      then respond 500 (Failure ''Internal server error'') (log @ [(Durable, Insert)]) s
      else respond 200
             (Generated False rid nm em ''Certificate generated successfully!'')
             (log @ [(Durable, Insert)])
             (s \<lparr> mongo := mongo s @ [new_certificate rid nm em now] \<rparr>))"
proof (cases "useInMemoryStore s")
  case True
  then show ?thesis by (simp add: store_certificate_def)
next
  case False
  with assms have q: "sched = quiet" by simp
  have "new_certificate rid nm em now \<lparr> user_email := toLowerCase em \<rparr> = new_certificate rid nm em now"
    using assms(2) by (simp add: new_certificate_def)
  then show ?thesis using False q
    by (simp add: store_certificate_def save_new_simple await_quiet new_certificate_def)
qed

lemma simple_generate_valid:
  assumes "n \<noteq> []" and "e \<noteq> []" and "regex_test emailRegex (toLowerCase (trim e))"
  shows "simple_generate sched rnd now (JStr n) (JStr e) s =
     (case find (\<lambda>c. user_email c = toLowerCase (trim e)) (active_store s) of
        Some c \<Rightarrow>
          Some (respond 200
                  (existing_body c
                     (if useInMemoryStore s
                      then ''Certificate already generated for this email (in-memory)''
                      else ''Certificate already generated for this email''))
                  [(selected s, Find_by_email)]
                  (if useInMemoryStore s then s else await sched 0 s))
      | None \<Rightarrow>
          generate_fresh sched rnd now (trim n) (toLowerCase (trim e))
            (if useInMemoryStore s then 0 else 1) [(selected s, Find_by_email)]
            (if useInMemoryStore s then s else await sched 0 s))"
  using assms
  by (simp add: simple_generate_def active_store_def selected_def Let_def split: option.splits)

lemma simple_generate_invalid:
  assumes "\<not> (\<exists>n e. name = JStr n \<and> email = JStr e \<and> n \<noteq> [] \<and> e \<noteq> []
               \<and> regex_test emailRegex (toLowerCase (trim e)))"
  shows "\<exists>st msg. simple_generate sched rnd now name email s = Some (respond st (Failure msg) [] s)
           \<and> (st = 400 \<or> st = 500)"
proof (cases "truthy name \<and> truthy email")
  case False
  then show ?thesis by (auto simp add: simple_generate_def)
next
  case True
  show ?thesis
  proof (cases "\<exists>n e. name = JStr n \<and> email = JStr e")
    case False
    with True show ?thesis
      by (cases name; cases email) (auto simp add: simple_generate_def)
  next
    case strings: True
    then obtain n e where "name = JStr n" "email = JStr e" by blast
    with True assms show ?thesis by (auto simp add: simple_generate_def)
  qed
qed

lemma simple_generate_200:
  assumes "simple_generate sched rnd now name email s = Some out" and "status out = 200"
  shows "\<exists>n e. name = JStr n \<and> email = JStr e \<and> n \<noteq> [] \<and> e \<noteq> []
               \<and> regex_test emailRegex (toLowerCase (trim e))"
proof (rule ccontr)
  assume "\<not> ?thesis"
  from simple_generate_invalid [OF this, of sched rnd now s] assms show False
    by (auto simp add: respond_def)
qed


lemma generate_fresh_alone:
  assumes "generate_fresh sched rnd now nm em k log s = Some out"
    and "sched = quiet \<or> useInMemoryStore s"
  shows "\<exists>p k' m. find (\<lambda>c. reference_id c = candidate rnd p) (active_store s) = None
           \<and> out = store_certificate sched k' (candidate rnd p) nm em now
                     (log @ replicate m (selected s, Find_by_reference_id)) s"
proof -
  from assms(1) obtain r where r: "unique_reference_id sched rnd k 0 log s = Some r"
    and out: "out = (case r of (rid, k', log', s') \<Rightarrow>
                       store_certificate sched k' rid nm em now log' s')"
    by (auto simp add: generate_fresh_def split: option.splits)
  from unique_reference_id_alone [OF r assms(2)] obtain p k' m where
    "r = (candidate rnd p, k', log @ replicate m (selected s, Find_by_reference_id), s)"
    and "find (\<lambda>c. reference_id c = candidate rnd p) (active_store s) = None"
    by blast
  with out show ?thesis by auto
qed

lemma find_reference_id_None:
  "find (\<lambda>c. reference_id c = rid) xs = None \<longleftrightarrow> rid \<notin> reference_id ` set xs"
  by (auto simp add: find_None_iff)

lemma candidate_nonempty: "candidate rnd p \<noteq> []"
  by (simp add: candidate_def)

text \<open>
  What a request that runs alone (or starts with the array selected) and answers 200 has
  done: it found a record with the e-mail, or it appended a new record with a fresh id to
  the active store.
\<close>

lemma simple_generate_alone:
  assumes run: "simple_generate sched rnd now name email s = Some out"
    and alone: "sched = quiet \<or> useInMemoryStore s"
    and ok: "status out = 200"
  shows "\<exists>n e. name = JStr n \<and> email = JStr e \<and> n \<noteq> [] \<and> e \<noteq> []
          \<and> regex_test emailRegex (toLowerCase (trim e))
          \<and> ((\<exists>c msg. find (\<lambda>c. user_email c = toLowerCase (trim e)) (active_store s) = Some c
                 \<and> body out = existing_body c msg \<and> final out = s)
             \<or> (\<exists>p msg. find (\<lambda>c. user_email c = toLowerCase (trim e)) (active_store s) = None
                 \<and> candidate rnd p \<notin> reference_id ` set (active_store s)
                 \<and> body out = Generated False (candidate rnd p) (trim n) (toLowerCase (trim e)) msg
                 \<and> useInMemoryStore (final out) = useInMemoryStore s
                 \<and> active_store (final out) =
                     active_store s
                       @ [new_certificate (candidate rnd p) (trim n) (toLowerCase (trim e)) now]
                 \<and> (if useInMemoryStore s then mongo (final out) = mongo s
                     else inMemoryStore (final out) = inMemoryStore s)))"
proof -
  from simple_generate_200 [OF run ok] obtain n e where
    ne: "name = JStr n" "email = JStr e" "n \<noteq> []" "e \<noteq> []"
    and re: "regex_test emailRegex (toLowerCase (trim e))"
    by blast
  let ?em = "toLowerCase (trim e)"
  have s0: "(if useInMemoryStore s then s else await sched 0 s) = s"
    using alone by (auto simp add: await_quiet)
  note valid = simple_generate_valid [OF ne(3,4) re, of sched rnd now s, unfolded s0]
  show ?thesis
  proof (cases "find (\<lambda>c. user_email c = ?em) (active_store s)")
    case (Some c)
    with valid run ne have "out = respond 200
                  (existing_body c
                     (if useInMemoryStore s
                      then ''Certificate already generated for this email (in-memory)''
                      else ''Certificate already generated for this email''))
                  [(selected s, Find_by_email)] s"
      by simp
    then have "body out = existing_body c (if useInMemoryStore s
                      then ''Certificate already generated for this email (in-memory)''
                      else ''Certificate already generated for this email'')"
      and "final out = s"
      by (simp_all add: respond_def)
    with Some ne re show ?thesis by blast
  next
    case None
    with valid run ne have "generate_fresh sched rnd now (trim n) ?em
            (if useInMemoryStore s then 0 else 1) [(selected s, Find_by_email)] s = Some out"
      by simp
    from generate_fresh_alone [OF this alone] obtain p k' m where
      fresh: "find (\<lambda>c. reference_id c = candidate rnd p) (active_store s) = None"
      and out: "out = store_certificate sched k' (candidate rnd p) (trim n) ?em now
                     ([(selected s, Find_by_email)] @ replicate m (selected s, Find_by_reference_id)) s"
      by blast
    have notin: "candidate rnd p \<notin> reference_id ` set (active_store s)"
      using fresh by (simp add: find_reference_id_None)
    have idem: "toLowerCase ?em = ?em" by (rule toLowerCase_idem)
    note sc = store_certificate_alone [OF alone idem, of k' "candidate rnd p" "trim n" now
        "[(selected s, Find_by_email)] @ replicate m (selected s, Find_by_reference_id)"]
    have "\<exists>msg. body out = Generated False (candidate rnd p) (trim n) ?em msg
         \<and> useInMemoryStore (final out) = useInMemoryStore s
         \<and> active_store (final out) =
             active_store s @ [new_certificate (candidate rnd p) (trim n) ?em now]
         \<and> (if useInMemoryStore s then mongo (final out) = mongo s
             else inMemoryStore (final out) = inMemoryStore s)"
    proof (cases "useInMemoryStore s")
      case True
      with out sc show ?thesis by (simp add: respond_def active_store_def)
    next
      case False
      with out sc ok notin have "out = respond 200
             (Generated False (candidate rnd p) (trim n) ?em ''Certificate generated successfully!'')
             (([(selected s, Find_by_email)] @ replicate m (selected s, Find_by_reference_id))
                @ [(Durable, Insert)])
             (s \<lparr> mongo := mongo s @ [new_certificate (candidate rnd p) (trim n) ?em now] \<rparr>)"
        by (simp add: respond_def active_store_def split: if_splits)
      with False show ?thesis by (simp add: respond_def active_store_def)
    qed
    with None notin ne re show ?thesis by blast
  qed
qed

lemma valid_alone_200:
  assumes run: "simple_generate sched rnd now (JStr n) (JStr e) s = Some out"
    and alone: "sched = quiet \<or> useInMemoryStore s"
    and name: "trim n \<noteq> []"
    and re: "regex_test emailRegex (toLowerCase (trim e))"
  shows "status out = 200"
proof -
  let ?em = "toLowerCase (trim e)"
  have n: "n \<noteq> []" using name by (auto simp add: trim_Nil)
  have e: "e \<noteq> []" using regex_nonempty [OF re] by (auto simp add: trim_Nil toLowerCase_def)
  have s0: "(if useInMemoryStore s then s else await sched 0 s) = s"
    using alone by (auto simp add: await_quiet)
  note valid = simple_generate_valid [OF n e re, of sched rnd now s, unfolded s0]
  show ?thesis
  proof (cases "find (\<lambda>c. user_email c = ?em) (active_store s)")
    case (Some c)
    with valid run show ?thesis by (auto simp add: respond_def)
  next
    case None
    with valid run have "generate_fresh sched rnd now (trim n) ?em
            (if useInMemoryStore s then 0 else 1) [(selected s, Find_by_email)] s = Some out"
      by simp
    from generate_fresh_alone [OF this alone] obtain p k' m where
      fresh: "find (\<lambda>c. reference_id c = candidate rnd p) (active_store s) = None"
      and out: "out = store_certificate sched k' (candidate rnd p) (trim n) ?em now
                     ([(selected s, Find_by_email)] @ replicate m (selected s, Find_by_reference_id)) s"
      by blast
    have notin: "candidate rnd p \<notin> reference_id ` set (active_store s)"
      using fresh by (simp add: find_reference_id_None)
    have idem: "toLowerCase ?em = ?em" by (rule toLowerCase_idem)
    note sc = store_certificate_alone [OF alone idem, of k' "candidate rnd p" "trim n" now
        "[(selected s, Find_by_email)] @ replicate m (selected s, Find_by_reference_id)"]
    from out sc notin name regex_nonempty [OF re] show ?thesis
      by (simp add: respond_def active_store_def candidate_nonempty split: if_splits)
  qed
qed

lemma find_append_new:
  "find P xs = None \<Longrightarrow> P c \<Longrightarrow> find P (xs @ [c]) = Some c"
  by (induction xs) (auto split: if_splits)

lemma find_Some_set: "find P xs = Some c \<Longrightarrow> c \<in> set xs \<and> P c"
  by (induction xs) (auto split: if_splits)

text \<open>After a call that answered 200, the active store holds a record with the e-mail,
  and the answer carried its reference id.\<close>

lemma simple_generate_leaves_record:
  assumes run: "simple_generate sched rnd now (JStr n) (JStr e) s = Some out"
    and alone: "sched = quiet \<or> useInMemoryStore s"
    and ok: "status out = 200"
  shows "\<exists>c. find (\<lambda>c. user_email c = toLowerCase (trim e)) (active_store (final out)) = Some c
           \<and> generated_id (body out) = reference_id c
           \<and> useInMemoryStore (final out) = useInMemoryStore s
           \<and> regex_test emailRegex (toLowerCase (trim e))"
proof -
  let ?em = "toLowerCase (trim e)"
  from simple_generate_alone [OF run alone ok]
  have re: "regex_test emailRegex ?em"
    and cases: "(\<exists>c msg. find (\<lambda>c. user_email c = ?em) (active_store s) = Some c
                 \<and> body out = existing_body c msg \<and> final out = s)
             \<or> (\<exists>p msg. find (\<lambda>c. user_email c = ?em) (active_store s) = None
                 \<and> body out = Generated False (candidate rnd p) (trim n) ?em msg
                 \<and> useInMemoryStore (final out) = useInMemoryStore s
                 \<and> active_store (final out) =
                     active_store s @ [new_certificate (candidate rnd p) (trim n) ?em now])"
    by auto
  from cases show ?thesis
  proof
    assume "\<exists>c msg. find (\<lambda>c. user_email c = ?em) (active_store s) = Some c
                 \<and> body out = existing_body c msg \<and> final out = s"
    with re show ?thesis by (auto simp add: existing_body_def)
  next
    assume "\<exists>p msg. find (\<lambda>c. user_email c = ?em) (active_store s) = None
                 \<and> body out = Generated False (candidate rnd p) (trim n) ?em msg
                 \<and> useInMemoryStore (final out) = useInMemoryStore s
                 \<and> active_store (final out) =
                     active_store s @ [new_certificate (candidate rnd p) (trim n) ?em now]"
    then obtain p msg where none: "find (\<lambda>c. user_email c = ?em) (active_store s) = None"
      and b: "body out = Generated False (candidate rnd p) (trim n) ?em msg"
      and u: "useInMemoryStore (final out) = useInMemoryStore s"
      and a: "active_store (final out) =
                     active_store s @ [new_certificate (candidate rnd p) (trim n) ?em now]"
      by blast
    have "find (\<lambda>c. user_email c = ?em) (active_store (final out))
            = Some (new_certificate (candidate rnd p) (trim n) ?em now)"
      unfolding a by (rule find_append_new [OF none]) (simp add: new_certificate_def)
    with b u re show ?thesis by (simp add: new_certificate_def)
  qed
qed

lemma simple_generate_existing:
  assumes found: "find (\<lambda>c. user_email c = toLowerCase (trim e)) (active_store s) = Some c"
    and n: "n \<noteq> []"
    and re: "regex_test emailRegex (toLowerCase (trim e))"
  shows "\<exists>msg. simple_generate quiet rnd now (JStr n) (JStr e) s
           = Some (respond 200 (existing_body c msg) [(selected s, Find_by_email)] s)"
proof -
  have e: "e \<noteq> []" using regex_nonempty [OF re] by (auto simp add: trim_Nil toLowerCase_def)
  show ?thesis
    using simple_generate_valid [OF n e re, of quiet rnd now s] found
    by (cases "useInMemoryStore s") (auto simp add: await_quiet)
qed

section \<open>Generating twice for one e-mail\<close>

text \<open>
  C1. Take a valid pair: a name that is not empty after trimming and an e-mail whose
  trimmed, lower-cased form matches the pattern. If a first generate call, running alone,
  returns, then it answers 200, and a second call, running alone in the state the first
  one left, with any non-empty name and any e-mail that has the same trimmed, lower-cased
  form, returns too: it answers 200 with \<open>existing: true\<close> and the fields of a record \<open>c\<close> of
  the active store that has this e-mail, its reference id is the one the first call
  answered, and it leaves the state (so both stores) exactly as the first call left it.
\<close>

theorem generate_twice_same_record:
  assumes first: "simple_generate quiet rnd now (JStr n) (JStr e) s = Some out1"
    and valid: "trim n \<noteq> []" "regex_test emailRegex (toLowerCase (trim e))"
    and second: "n2 \<noteq> []" "toLowerCase (trim e2) = toLowerCase (trim e)"
  shows "\<exists>out2 c msg.
           simple_generate quiet rnd2 now2 (JStr n2) (JStr e2) (final out1) = Some out2
         \<and> status out1 = 200
         \<and> c \<in> set (active_store (final out1))
         \<and> user_email c = toLowerCase (trim e)
         \<and> generated_id (body out1) = reference_id c
         \<and> status out2 = 200
         \<and> body out2 = Generated True (reference_id c) (user_name c) (user_email c) msg
         \<and> final out2 = final out1"
proof -
  have ok: "status out1 = 200"
    using valid_alone_200 [OF first _ valid] by simp
  from simple_generate_leaves_record [OF first _ ok] obtain c where
    c: "find (\<lambda>c. user_email c = toLowerCase (trim e)) (active_store (final out1)) = Some c"
    and rid: "generated_id (body out1) = reference_id c"
    by auto
  from c second(2) have c2: "find (\<lambda>c. user_email c = toLowerCase (trim e2))
      (active_store (final out1)) = Some c"
    by simp
  from valid(2) second(2) have re2: "regex_test emailRegex (toLowerCase (trim e2))"
    by simp
  from simple_generate_existing [OF c2 second(1) re2, of rnd2 now2] obtain msg where
    "simple_generate quiet rnd2 now2 (JStr n2) (JStr e2) (final out1)
       = Some (respond 200 (existing_body c msg) [(selected (final out1), Find_by_email)] (final out1))"
    by blast
  moreover from find_Some_set [OF c] have "c \<in> set (active_store (final out1))"
    and "user_email c = toLowerCase (trim e)" by simp_all
  ultimately show ?thesis using ok rid
    by (auto simp add: respond_def existing_body_def)
qed

theorem generate_twice_same_record_witness:
  "\<exists>out1 out2.
     simple_generate quiet (\<lambda>j. 0) 5 (JStr ''Ada Lovelace'') (JStr ''ADA@Example.com '')
       (memory_server []) = Some out1
   \<and> simple_generate quiet (\<lambda>j. 1) 9 (JStr ''Ada'') (JStr '' ada@example.COM'') (final out1)
       = Some out2
   \<and> generated_id (body out1) = ''CSAC2025-00000''
   \<and> existing (body out2) \<and> generated_id (body out2) = ''CSAC2025-00000''
   \<and> final out2 = final out1 \<and> final out1 = memory_server [cert_a]"
proof -
  have first: "simple_generate quiet (\<lambda>j. 0) 5 (JStr ''Ada Lovelace'') (JStr ''ADA@Example.com '')
      (memory_server [])
      = Some (respond 200
          (Generated False ''CSAC2025-00000'' ''Ada Lovelace'' ''ada@example.com''
             ''Certificate generated successfully (in-memory)!'')
          [(InMemory, Find_by_email), (InMemory, Find_by_reference_id), (InMemory, Insert)]
          (memory_server [cert_a]))"
    by code_simp
  have v1: "trim ''Ada Lovelace'' \<noteq> []" by code_simp
  have v2: "regex_test emailRegex (toLowerCase (trim ''ADA@Example.com ''))" by code_simp
  have v3: "''Ada'' \<noteq> []" by simp
  have v4: "toLowerCase (trim '' ada@example.COM'') = toLowerCase (trim ''ADA@Example.com '')"
    by code_simp
  from generate_twice_same_record [OF first v1 v2 v3 v4, of "\<lambda>j. 1" 9]
  show ?thesis
    using first by (auto simp add: respond_def)
qed

section \<open>The reference id of a new record\<close>

text \<open>
  Let every draw be an index into the 36 characters (what
  \<open>Math.floor(Math.random() * chars.length)\<close> yields). A generate request that runs alone,
  or that starts with the array selected, and that creates a record (it answers 200
  without \<open>existing\<close>) gives it a reference id made of \<open>CSAC2025-\<close> and exactly five
  characters of \<open>0-9A-Z\<close>; no record of the store that is active when the request runs has
  this id; and the request appends one record with this id to that store.
\<close>

lemma created_reference_id_fresh_alone:
  assumes draws: "\<forall>j. rnd j < 36"
    and run: "simple_generate sched rnd now name email s = Some out"
    and alone: "sched = quiet \<or> useInMemoryStore s"
    and created: "status out = 200" "\<not> existing (body out)"
  shows "\<exists>code c.
           generated_id (body out) = ''CSAC2025-'' @ code
         \<and> length code = 5
         \<and> set code \<subseteq> set ''0123456789ABCDEFGHIJKLMNOPQRSTUVWXYZ''
         \<and> generated_id (body out) \<notin> reference_id ` set (active_store s)
         \<and> useInMemoryStore (final out) = useInMemoryStore s
         \<and> active_store (final out) = active_store s @ [c]
         \<and> reference_id c = generated_id (body out)"
proof -
  from simple_generate_alone [OF run alone created(1)] created(2)
  obtain n e p msg where
    notin: "candidate rnd p \<notin> reference_id ` set (active_store s)"
    and b: "body out = Generated False (candidate rnd p) (trim n) (toLowerCase (trim e)) msg"
    and u: "useInMemoryStore (final out) = useInMemoryStore s"
    and a: "active_store (final out) =
              active_store s @ [new_certificate (candidate rnd p) (trim n) (toLowerCase (trim e)) now]"
    by (auto simp add: existing_body_def)
  from generateRandomCode_shape [OF draws, of p]
  have "length (generateRandomCode rnd p) = 5"
    and "set (generateRandomCode rnd p) \<subseteq> set ''0123456789ABCDEFGHIJKLMNOPQRSTUVWXYZ''"
    by (simp_all add: chars_def)
  moreover have "generated_id (body out) = ''CSAC2025-'' @ generateRandomCode rnd p"
    using b by (simp add: candidate_def)
  moreover have "reference_id (new_certificate (candidate rnd p) (trim n) (toLowerCase (trim e)) now)
      = generated_id (body out)"
    using b by (simp add: new_certificate_def)
  moreover have "generated_id (body out) \<notin> reference_id ` set (active_store s)"
    using b notin by simp
  ultimately show ?thesis using u a by blast
qed

lemma created_reference_id_fresh_alone_example:
  "\<exists>out. simple_generate quiet (\<lambda>j. (7 * j + 1) mod 36) 9 (JStr ''Bob'') (JStr ''bob@example.com'')
            (init_server [cert_a]) = Some out
       \<and> generated_id (body out) = ''CSAC2025-18FMT''
       \<and> generated_id (body out) \<notin> reference_id ` set (active_store (init_server [cert_a]))
       \<and> map reference_id (active_store (final out)) = [''CSAC2025-00000'', ''CSAC2025-18FMT'']"
proof -
  have run: "simple_generate quiet (\<lambda>j. (7 * j + 1) mod 36) 9 (JStr ''Bob'') (JStr ''bob@example.com'')
      (init_server [cert_a])
      = Some (respond 200
          (Generated False ''CSAC2025-18FMT'' ''Bob'' ''bob@example.com''
             ''Certificate generated successfully!'')
          [(Durable, Find_by_email), (Durable, Find_by_reference_id), (Durable, Insert)]
          (init_server [cert_a, new_certificate ''CSAC2025-18FMT'' ''Bob'' ''bob@example.com'' 9]))"
    by code_simp
  have draws: "\<forall>j. (\<lambda>j. (7 * j + 1) mod 36) j < (36::nat)" by simp
  from created_reference_id_fresh_alone [OF draws run]
  show ?thesis using run
    by (auto simp add: respond_def init_server_def active_store_def cert_a_def new_certificate_def)
qed

section \<open>The date does not enter the reference id\<close>

lemma store_certificate_now:
  "status (store_certificate sched k rid nm em now' log s)
     = status (store_certificate sched k rid nm em now log s)
   \<and> body (store_certificate sched k rid nm em now' log s)
     = body (store_certificate sched k rid nm em now log s)
   \<and> accesses (store_certificate sched k rid nm em now' log s)
     = accesses (store_certificate sched k rid nm em now log s)"
  by (simp add: store_certificate_def save_new_simple new_certificate_def respond_def)

lemma store_certificate_body:
  "body (store_certificate sched k rid nm em now log s) = Failure ''Internal server error''
     \<and> status (store_certificate sched k rid nm em now log s) = 500
   \<or> (\<exists>msg. body (store_certificate sched k rid nm em now log s) = Generated False rid nm em msg)
     \<and> status (store_certificate sched k rid nm em now log s) = 200"
  by (simp add: store_certificate_def save_new_simple new_certificate_def respond_def)

lemma generate_fresh_now:
  assumes "generate_fresh sched rnd now nm em k log s = Some out"
  shows "\<exists>out' p. generate_fresh sched rnd now' nm em k log s = Some out'
           \<and> status out' = status out \<and> body out' = body out \<and> accesses out' = accesses out
           \<and> (status out = 200 \<longrightarrow> generated_id (body out) = candidate rnd p
                 \<and> \<not> existing (body out))"
proof -
  from assms obtain rid k' log' s' where r: "unique_reference_id sched rnd k 0 log s = Some (rid, k', log', s')"
    and out: "out = store_certificate sched k' rid nm em now log' s'"
    by (auto simp add: generate_fresh_def split: option.splits)
  from unique_reference_id_candidate [OF r] obtain p where p: "rid = candidate rnd p"
    by auto
  have "generate_fresh sched rnd now' nm em k log s
          = Some (store_certificate sched k' rid nm em now' log' s')"
    using r by (simp add: generate_fresh_def)
  moreover have "status out = 200 \<longrightarrow> generated_id (body out) = candidate rnd p
                 \<and> \<not> existing (body out)"
    using store_certificate_body [of sched k' rid nm em now log' s'] out p by auto
  ultimately show ?thesis
    using store_certificate_now [of sched k' rid nm em now' log' s' now] out by auto
qed

lemma simple_generate_invalid_same:
  assumes "\<not> (\<exists>n e. name = JStr n \<and> email = JStr e \<and> n \<noteq> [] \<and> e \<noteq> []
               \<and> regex_test emailRegex (toLowerCase (trim e)))"
  shows "simple_generate sched' rnd' now' name email s = simple_generate sched rnd now name email s"
proof (cases "truthy name \<and> truthy email")
  case False
  then show ?thesis by (auto simp add: simple_generate_def)
next
  case True
  show ?thesis
  proof (cases "\<exists>n e. name = JStr n \<and> email = JStr e")
    case False
    with True show ?thesis
      by (cases name; cases email) (auto simp add: simple_generate_def)
  next
    case strings: True
    then obtain n e where "name = JStr n" "email = JStr e" by blast
    with True assms show ?thesis by (auto simp add: simple_generate_def)
  qed
qed

lemma simple_generate_now:
  assumes run: "simple_generate sched rnd now name email s = Some out"
  shows "\<exists>out'. simple_generate sched rnd now' name email s = Some out'
           \<and> status out' = status out \<and> body out' = body out \<and> accesses out' = accesses out
           \<and> (status out = 200 \<and> \<not> existing (body out)
                 \<longrightarrow> (\<exists>p. generated_id (body out) = candidate rnd p))"
proof (cases "\<exists>n e. name = JStr n \<and> email = JStr e \<and> n \<noteq> [] \<and> e \<noteq> []
               \<and> regex_test emailRegex (toLowerCase (trim e))")
  case False
  from simple_generate_invalid [OF False, of sched rnd now s]
    simple_generate_invalid_same [OF False, of sched rnd now' s sched rnd now] run
  show ?thesis
    by (auto simp add: respond_def)
next
  case True
  then obtain n e where ne: "name = JStr n" "email = JStr e" "n \<noteq> []" "e \<noteq> []"
    and re: "regex_test emailRegex (toLowerCase (trim e))"
    by blast
  note v = simple_generate_valid [OF ne(3,4) re, of sched rnd _ s]
  show ?thesis
  proof (cases "find (\<lambda>c. user_email c = toLowerCase (trim e)) (active_store s)")
    case (Some c)
    with v [of now] v [of now'] run ne show ?thesis
      by (auto simp add: respond_def existing_body_def)
  next
    case None
    with v [of now] run ne have "generate_fresh sched rnd now (trim n) (toLowerCase (trim e))
            (if useInMemoryStore s then 0 else 1) [(selected s, Find_by_email)]
            (if useInMemoryStore s then s else await sched 0 s) = Some out"
      by simp
    from generate_fresh_now [OF this, of now'] v [of now'] None ne show ?thesis
      by auto
  qed
qed

text \<open>
  C9. Whatever the schedule, the state and the date \<open>now\<close>, the reference id of a record
  that a generate request creates starts with the nine characters \<open>CSAC2025-\<close>; and the
  same request at any other date \<open>now'\<close> returns as well and answers the same id: the year
  in the id is a constant of the program, not read from the clock.
\<close>

theorem reference_id_prefix_fixed:
  assumes run: "simple_generate sched rnd now name email s = Some out"
    and created: "status out = 200" "\<not> existing (body out)"
  shows "take 9 (generated_id (body out)) = ''CSAC2025-''
       \<and> (\<forall>now'. \<exists>out'. simple_generate sched rnd now' name email s = Some out'
                     \<and> status out' = 200
                     \<and> generated_id (body out') = generated_id (body out))"
proof -
  have "\<exists>p. generated_id (body out) = candidate rnd p"
    using simple_generate_now [OF run, of now] created by blast
  then have "take 9 (generated_id (body out)) = ''CSAC2025-''"
    by (auto simp add: candidate_prefix)
  moreover have "\<exists>out'. simple_generate sched rnd now' name email s = Some out'
                     \<and> status out' = 200
                     \<and> generated_id (body out') = generated_id (body out)" for now'
    using simple_generate_now [OF run, of now'] created by auto
  ultimately show ?thesis by blast
qed

theorem reference_id_prefix_fixed_witness:
  "\<exists>out out'.
      simple_generate quiet (\<lambda>j. 35 - j) 1735689600000 (JStr ''Bob'') (JStr ''bob@example.com'')
        (memory_server [cert_a]) = Some out
    \<and> simple_generate quiet (\<lambda>j. 35 - j) 1893456000000 (JStr ''Bob'') (JStr ''bob@example.com'')
        (memory_server [cert_a]) = Some out'
    \<and> generated_id (body out) = ''CSAC2025-ZYXWV''
    \<and> generated_id (body out') = ''CSAC2025-ZYXWV''"
proof -
  have run: "simple_generate quiet (\<lambda>j. 35 - j) 1735689600000 (JStr ''Bob'') (JStr ''bob@example.com'')
      (memory_server [cert_a])
      = Some (respond 200
          (Generated False ''CSAC2025-ZYXWV'' ''Bob'' ''bob@example.com''
             ''Certificate generated successfully (in-memory)!'')
          [(InMemory, Find_by_email), (InMemory, Find_by_reference_id), (InMemory, Insert)]
          (memory_server [cert_a, new_certificate ''CSAC2025-ZYXWV'' ''Bob'' ''bob@example.com'' 1735689600000]))"
    by code_simp
  from reference_id_prefix_fixed [OF run]
  show ?thesis using run
    by (auto simp add: respond_def)
qed

section \<open>Counting downloads\<close>







section \<open>Input validation\<close>

lemma invalid_input_400:
  assumes "n = [] \<or> e = [] \<or> \<not> regex_test emailRegex (toLowerCase (trim e))"
  shows "\<exists>msg. simple_generate sched rnd now (JStr n) (JStr e) s
           = Some (respond 400 (Failure msg) [] s)"
  using assms by (auto simp add: simple_generate_def)

text \<open>
  C4. A name of three blanks passes the check of line 125 and is empty after trimming.
  With the array selected the request answers 200 and stores a record whose name is
  empty; with the durable collection selected the schema refuses the empty name and the
  request answers 500. Neither is the 400 of an invalid input.
\<close>

theorem blank_name_is_stored:
  "trim ''   '' = []
   \<and> simple_generate quiet (always 0) 5 (JStr ''   '') (JStr ''x@y.com'') (memory_server [])
       = Some (respond 200
                 (Generated False ''CSAC2025-00000'' [] ''x@y.com''
                    ''Certificate generated successfully (in-memory)!'')
                 [(InMemory, Find_by_email), (InMemory, Find_by_reference_id), (InMemory, Insert)]
                 (memory_server [new_certificate ''CSAC2025-00000'' [] ''x@y.com'' 5]))
   \<and> simple_generate quiet (always 0) 5 (JStr ''   '') (JStr ''x@y.com'') (init_server [])
       = Some (respond 500 (Failure ''Internal server error'')
                 [(Durable, Find_by_email), (Durable, Find_by_reference_id), (Durable, Insert)]
                 (init_server []))"
  by code_simp

theorem blank_name_is_stored_witness:
  "\<exists>out. simple_generate quiet (always 0) 5 (JStr ''   '') (JStr ''x@y.com'') (memory_server [])
           = Some out
       \<and> status out = 200
       \<and> map user_name (inMemoryStore (final out)) = [[]]"
  using blank_name_is_stored
  by (simp add: respond_def memory_server_def new_certificate_def)

section \<open>Which store a request addresses\<close>

lemma store_certificate_accesses:
  "accesses (store_certificate sched k rid nm em now log s) = log @ [(selected s, Insert)]"
  by (simp add: store_certificate_def respond_def selected_def split: sum.splits)

lemma generate_fresh_accesses:
  assumes run: "generate_fresh sched rnd now nm em k log s = Some out"
    and steady: "useInMemoryStore s \<or> calm sched"
  shows "\<exists>m. accesses out = log @ replicate m (selected s, Find_by_reference_id) @ [(selected s, Insert)]"
proof -
  from run obtain r where r: "unique_reference_id sched rnd k 0 log s = Some r"
    and out: "out = (case r of (rid, k', log', s') \<Rightarrow>
                       store_certificate sched k' rid nm em now log' s')"
    by (auto simp add: generate_fresh_def split: option.splits)
  show ?thesis
  proof (cases "useInMemoryStore s")
    case True
    from unique_reference_id_alone [OF r] True obtain p k' m where
      "r = (candidate rnd p, k', log @ replicate m (selected s, Find_by_reference_id), s)"
      by blast
    with out show ?thesis by (auto simp add: store_certificate_accesses)
  next
    case False
    with steady have "calm sched" by simp
    from unique_reference_id_calm [OF r this False] obtain p k' m s' where
      "r = (candidate rnd p, k', log @ replicate m (Durable, Find_by_reference_id), s')"
      and "\<not> useInMemoryStore s'"
      by blast
    with out False show ?thesis by (auto simp add: store_certificate_accesses selected_def)
  qed
qed

lemma simple_generate_accesses:
  assumes run: "simple_generate sched rnd now name email s = Some out"
    and steady: "useInMemoryStore s \<or> calm sched"
  shows "\<forall>a \<in> set (accesses out). fst a = selected s"
proof (cases "\<exists>n e. name = JStr n \<and> email = JStr e \<and> n \<noteq> [] \<and> e \<noteq> []
               \<and> regex_test emailRegex (toLowerCase (trim e))")
  case False
  from simple_generate_invalid [OF False, of sched rnd now s] run
  show ?thesis by (auto simp add: respond_def)
next
  case True
  then obtain n e where ne: "name = JStr n" "email = JStr e" "n \<noteq> []" "e \<noteq> []"
    and re: "regex_test emailRegex (toLowerCase (trim e))"
    by blast
  note v = simple_generate_valid [OF ne(3,4) re, of sched rnd now s]
  let ?s1 = "if useInMemoryStore s then s else await sched 0 s"
  have sel: "selected ?s1 = selected s"
    using steady await_stays_durable [of sched s 0] by (auto simp add: selected_def)
  have steady1: "useInMemoryStore ?s1 \<or> calm sched"
    using steady by auto
  show ?thesis
  proof (cases "find (\<lambda>c. user_email c = toLowerCase (trim e)) (active_store s)")
    case (Some c)
    with v run ne show ?thesis by (auto simp add: respond_def)
  next
    case None
    with v run ne have "generate_fresh sched rnd now (trim n) (toLowerCase (trim e))
            (if useInMemoryStore s then 0 else 1) [(selected s, Find_by_email)] ?s1 = Some out"
      by simp
    from generate_fresh_accesses [OF this steady1] sel show ?thesis
      by auto
  qed
qed

lemma simple_certificate_accesses:
  "\<forall>a \<in> set (accesses (simple_certificate sched qid s)). fst a = selected s"
  by (simp add: simple_certificate_def respond_def selected_def Let_def
      split: option.splits sum.splits)

lemma stats_accesses:
  "\<forall>a \<in> set (accesses (stats sched s)). fst a = selected s"
  by (simp add: stats_def respond_def selected_def Let_def)

text \<open>
  C6, as stated, fails. The durable collection is selected and empty, the array holds a
  record for \<open>ada@example.com\<close>, and \<open>disconnected\<close> fires while the request awaits its
  lookup by e-mail. The lookup by e-mail went to the durable collection; the lookup by
  reference id and the insert go to the array, which now holds two records for the e-mail.
\<close>

theorem selector_flip_counterexample:
  "simple_generate (at_await 0 [Disconnected]) (always 7) 9 (JStr ''Ada'') (JStr ''ada@example.com'')
     \<lparr> useInMemoryStore = False, inMemoryStore = [cert_a], mongo = [] \<rparr>
   = Some (respond 200
             (Generated False ''CSAC2025-77777'' ''Ada'' ''ada@example.com''
                ''Certificate generated successfully (in-memory)!'')
             [(Durable, Find_by_email), (InMemory, Find_by_reference_id), (InMemory, Insert)]
             \<lparr> useInMemoryStore = True,
               inMemoryStore =
                 [cert_a, new_certificate ''CSAC2025-77777'' ''Ada'' ''ada@example.com'' 9],
               mongo = [] \<rparr>)"
  by code_simp

text \<open>
  C6, amended. A generate request that returns performs all its store operations on the
  store selected when it started, if that store is the array (the request is then never
  suspended) or if no \<open>disconnected\<close> and no rejected connect is delivered while it is
  suspended. A lookup and a statistics request read the flag once and perform all their
  store operations on the store selected when they started, under every schedule.
\<close>

theorem accesses_follow_selector:
  assumes run: "simple_generate sched rnd now name email s = Some out"
    and steady: "useInMemoryStore s \<or> calm sched"
  shows "(\<forall>a \<in> set (accesses out). fst a = selected s)
       \<and> (\<forall>a \<in> set (accesses (simple_certificate sched' qid s)). fst a = selected s)
       \<and> (\<forall>a \<in> set (accesses (stats sched' s)). fst a = selected s)"
  using simple_generate_accesses [OF run steady] simple_certificate_accesses stats_accesses
  by blast

theorem accesses_follow_selector_witness:
  "\<exists>out. simple_generate (at_await 0 [Connected, Other_save cert_b]) (always 7) 9
            (JStr ''Bob'') (JStr ''bob@example.org'') (init_server [cert_a]) = Some out
       \<and> map fst (accesses out) = [Durable, Durable, Durable]
       \<and> selected (init_server [cert_a]) = Durable"
proof -
  have run: "simple_generate (at_await 0 [Connected, Other_save cert_b]) (always 7) 9
       (JStr ''Bob'') (JStr ''bob@example.org'') (init_server [cert_a])
     = Some (respond 200
             (Generated False ''CSAC2025-77777'' ''Bob'' ''bob@example.org''
                ''Certificate generated successfully!'')
             [(Durable, Find_by_email), (Durable, Find_by_reference_id), (Durable, Insert)]
             (init_server [cert_a, cert_b,
                new_certificate ''CSAC2025-77777'' ''Bob'' ''bob@example.org'' 9]))"
    by code_simp
  have "calm (at_await 0 [Connected, Other_save cert_b])"
    by (simp add: calm_def at_await_def)
  then have "useInMemoryStore (init_server [cert_a])
      \<or> calm (at_await 0 [Connected, Other_save cert_b])"
    by simp
  from accesses_follow_selector [OF run this] show ?thesis
    using run by (simp add: respond_def selected_def init_server_def)
qed

section \<open>The flag while the first connection attempt is pending\<close>

text \<open>
  C7, as stated, fails. Before any connection callback has run the flag is false, and a
  lookup arriving then addresses the durable collection and leaves the array empty.
\<close>

theorem pending_connection_counterexample:
  "\<not> useInMemoryStore (init_server [cert_a])
   \<and> accesses (simple_certificate quiet (Some ''CSAC2025-00000'') (init_server [cert_a]))
       = [(Durable, Find_by_reference_id), (Durable, Mark_downloaded)]
   \<and> inMemoryStore (final (simple_certificate quiet (Some ''CSAC2025-00000'')
        (init_server [cert_a]))) = []"
  by code_simp

text \<open>
  C7, amended. While the first connection attempt is pending the flag has its initial
  value false: the durable collection is selected, and every store operation of a lookup,
  of a statistics request and of a generate request (under a schedule that delivers no
  \<open>disconnected\<close> and no rejected connect) addresses the durable collection. The array is
  selected once the attempt is rejected or \<open>disconnected\<close> fires; a resolved attempt,
  \<open>connected\<close> and \<open>error\<close> leave the durable collection selected.
\<close>

theorem pending_connection_selects_durable:
  "\<not> useInMemoryStore (init_server db)
   \<and> selected (init_server db) = Durable
   \<and> (\<forall>a \<in> set (accesses (simple_certificate sched qid (init_server db))). fst a = Durable)
   \<and> (\<forall>a \<in> set (accesses (stats sched (init_server db))). fst a = Durable)
   \<and> (\<forall>out. calm sched \<and> simple_generate sched rnd now name email (init_server db) = Some out
         \<longrightarrow> (\<forall>a \<in> set (accesses out). fst a = Durable))
   \<and> useInMemoryStore (deliver Connect_rejected (init_server db))
   \<and> useInMemoryStore (deliver Disconnected (init_server db))
   \<and> \<not> useInMemoryStore (deliver Connect_resolved (init_server db))
   \<and> \<not> useInMemoryStore (deliver Connected (init_server db))
   \<and> \<not> useInMemoryStore (deliver Connection_error (init_server db))"
proof -
  have sel: "selected (init_server db) = Durable"
    by (simp add: selected_def init_server_def)
  have "\<forall>a \<in> set (accesses out). fst a = Durable"
    if "calm sched" and "simple_generate sched rnd now name email (init_server db) = Some out"
    for out
    using simple_generate_accesses [OF that(2)] that(1) sel by simp
  then show ?thesis
    using sel simple_certificate_accesses [of sched qid "init_server db"]
      stats_accesses [of sched "init_server db"]
    by (simp add: init_server_def)
qed

theorem pending_connection_selects_durable_witness:
  "\<exists>out. simple_generate quiet (always 7) 9 (JStr ''Bob'') (JStr ''bob@example.org'')
            (init_server []) = Some out
       \<and> map fst (accesses out) = [Durable, Durable, Durable]
       \<and> inMemoryStore (final out) = []
       \<and> selected (init_server []) = Durable"
proof -
  have run: "simple_generate quiet (always 7) 9 (JStr ''Bob'') (JStr ''bob@example.org'') (init_server [])
      = Some (respond 200
             (Generated False ''CSAC2025-77777'' ''Bob'' ''bob@example.org''
                ''Certificate generated successfully!'')
             [(Durable, Find_by_email), (Durable, Find_by_reference_id), (Durable, Insert)]
             (init_server [new_certificate ''CSAC2025-77777'' ''Bob'' ''bob@example.org'' 9]))"
    by code_simp
  from pending_connection_selects_durable [of "[]" quiet None "always 7" 9 "JStr ''Bob''"
      "JStr ''bob@example.org''"] calm_quiet run
  show ?thesis by (simp add: respond_def init_server_def)
qed

section \<open>A save that the durable collection refuses\<close>

text \<open>
  C5, as stated, fails. The durable collection accepts a second document with the e-mail
  of a stored one. And when another writer stores the id \<open>CSAC2025-00000\<close> while a request
  awaits its check of that id, the request's own save is refused and the request answers
  500 \<open>Internal server error\<close> at once.
\<close>

theorem conflict_counterexample:
  "save_new simpleCertificateSchema (cert_a \<lparr> reference_id := ''CSAC2025-11111'' \<rparr>) [cert_a]
     = Inr [cert_a, cert_a \<lparr> reference_id := ''CSAC2025-11111'' \<rparr>]
   \<and> simple_generate (at_await 1 [Other_save cert_a]) (always 0) 9
        (JStr ''Bob'') (JStr ''bob@example.com'') (init_server [])
     = Some (respond 500 (Failure ''Internal server error'')
               [(Durable, Find_by_email), (Durable, Find_by_reference_id), (Durable, Insert)]
               (init_server [cert_a]))"
  by code_simp

text \<open>
  C5, amended. The durable collection enforces the uniqueness of the reference id only: a
  save succeeds only for an id that no stored document has, and it succeeds for every
  document with such an id and non-empty id, name and e-mail, whatever e-mails are
  stored. When the durable collection is selected and the id is taken, the save is
  refused, and lines 199 to 251 answer 500 \<open>Internal server error\<close> without another attempt
  and without a lookup by e-mail; the request itself stores nothing.
\<close>

theorem rejected_save_answers_500:
  assumes durable: "\<not> useInMemoryStore s"
    and taken: "rid \<in> reference_id ` set (mongo s)"
  shows "(\<exists>err. save_new simpleCertificateSchema (new_certificate rid nm em now) (mongo s) = Inl err)
       \<and> store_certificate sched k rid nm em now log s
           = respond 500 (Failure ''Internal server error'') (log @ [(Durable, Insert)])
               (await sched k s)
       \<and> (\<forall>c db db'. save_new simpleCertificateSchema c db = Inr db'
             \<longrightarrow> reference_id c \<notin> reference_id ` set db)
       \<and> (\<forall>c db. reference_id c \<noteq> [] \<and> user_name c \<noteq> [] \<and> user_email c \<noteq> []
                  \<and> reference_id c \<notin> reference_id ` set db
             \<longrightarrow> save_new simpleCertificateSchema c db
                   = Inr (db @ [c \<lparr> user_email := toLowerCase (user_email c) \<rparr>]))"
proof -
  have "\<exists>err. save_new simpleCertificateSchema (new_certificate rid nm em now) (mongo s) = Inl err"
    using taken by (simp add: save_new_simple new_certificate_def)
  then have "store_certificate sched k rid nm em now log s
           = respond 500 (Failure ''Internal server error'') (log @ [(Durable, Insert)])
               (await sched k s)"
    using durable by (auto simp add: store_certificate_def)
  moreover have "\<forall>c db db'. save_new simpleCertificateSchema c db = Inr db'
             \<longrightarrow> reference_id c \<notin> reference_id ` set db"
    by (auto simp add: save_new_simple split: if_splits)
  moreover have "\<forall>c db. reference_id c \<noteq> [] \<and> user_name c \<noteq> [] \<and> user_email c \<noteq> []
                  \<and> reference_id c \<notin> reference_id ` set db
             \<longrightarrow> save_new simpleCertificateSchema c db
                   = Inr (db @ [c \<lparr> user_email := toLowerCase (user_email c) \<rparr>])"
    by (simp add: save_new_simple)
  ultimately show ?thesis
    using \<open>\<exists>err. _\<close> by blast
qed

theorem rejected_save_answers_500_witness:
  "store_certificate quiet 2 ''CSAC2025-00000'' ''Bob'' ''bob@example.com'' 9 [] (init_server [cert_a])
     = respond 500 (Failure ''Internal server error'') [(Durable, Insert)] (init_server [cert_a])"
proof -
  have "\<not> useInMemoryStore (init_server [cert_a])"
    by (simp add: init_server_def)
  moreover have "''CSAC2025-00000'' \<in> reference_id ` set (mongo (init_server [cert_a]))"
    by (simp add: init_server_def cert_a_def)
  ultimately show ?thesis
    using rejected_save_answers_500 [of "init_server [cert_a]" "''CSAC2025-00000''" "''Bob''"
        "''bob@example.com''" 9 quiet 2 "[]"]
    by (simp add: await_quiet)
qed

section \<open>Requests that return\<close>

text \<open>The loop returns as soon as some round draws an id that the active store does not
  hold: with the request running alone, a free id at round \<open>m\<close> is enough.\<close>

lemma unique_reference_id_returns:
  assumes "find (\<lambda>c. reference_id c = candidate rnd (pos + 5 * m)) (active_store s) = None"
  shows "\<exists>r. unique_reference_id quiet rnd k pos log s = Some r"
  using assms
proof (induction m arbitrary: k pos log)
  case 0
  then show ?case
    by (subst unique_reference_id.simps) (cases "useInMemoryStore s"; simp add: active_store_def)
next
  case (Suc m)
  have "find (\<lambda>c. reference_id c = candidate rnd ((pos + 5) + 5 * m)) (active_store s) = None"
    using Suc.prems by (simp add: add.assoc)
  from Suc.IH [OF this]
  have next_round: "\<exists>r. unique_reference_id quiet rnd k' (pos + 5) log' s = Some r" for k' log'
    by blast
  show ?case
    using next_round [of k "log @ [(InMemory, Find_by_reference_id)]"]
      next_round [of "Suc k" "log @ [(Durable, Find_by_reference_id)]"]
    by (subst unique_reference_id.simps) (simp add: await_quiet)
qed

lemma simple_generate_returns:
  assumes "find (\<lambda>c. reference_id c = candidate rnd (5 * m)) (active_store s) = None"
  shows "\<exists>out. simple_generate quiet rnd now name email s = Some out"
proof (cases "\<exists>n e. name = JStr n \<and> email = JStr e \<and> n \<noteq> [] \<and> e \<noteq> []
               \<and> regex_test emailRegex (toLowerCase (trim e))")
  case False
  from simple_generate_invalid [OF False, of quiet rnd now s] show ?thesis by blast
next
  case True
  then obtain n e where ne: "name = JStr n" "email = JStr e" "n \<noteq> []" "e \<noteq> []"
    and re: "regex_test emailRegex (toLowerCase (trim e))"
    by blast
  have loop: "\<exists>r. unique_reference_id quiet rnd k 0 log s = Some r" for k log
    using unique_reference_id_returns [of rnd 0 m s k log] assms by simp
  have "\<exists>out. generate_fresh quiet rnd now nm em k log s = Some out" for nm em k log
    using loop [of k log] by (auto simp add: generate_fresh_def)
  then show ?thesis
    using simple_generate_valid [OF ne(3,4) re, of quiet rnd now s] ne
    by (auto simp add: await_quiet split: option.splits)
qed

lemma unknown_id_not_found:
  assumes "i \<noteq> []" and "find (\<lambda>c. reference_id c = i) (active_store s) = None"
  shows "status (simple_certificate quiet (Some i) s) = 404
       \<and> final (simple_certificate quiet (Some i) s) = s"
  using assms
  by (cases "useInMemoryStore s")
    (simp_all add: simple_certificate_def respond_def active_store_def await_quiet)

section \<open>A reference id that is not unique\<close>

text \<open>
  Under every schedule the id of a created record has the format: \<open>CSAC2025-\<close> and five
  characters of \<open>0-9A-Z\<close>.
\<close>

lemma created_reference_id_format:
  assumes draws: "\<forall>j. rnd j < 36"
    and run: "simple_generate sched rnd now name email s = Some out"
    and created: "status out = 200" "\<not> existing (body out)"
  shows "\<exists>code. generated_id (body out) = ''CSAC2025-'' @ code
           \<and> length code = 5
           \<and> set code \<subseteq> set ''0123456789ABCDEFGHIJKLMNOPQRSTUVWXYZ''"
proof -
  from simple_generate_now [OF run, of now] created
  obtain p where "generated_id (body out) = candidate rnd p" by blast
  then have "generated_id (body out) = ''CSAC2025-'' @ generateRandomCode rnd p"
    by (simp add: candidate_def)
  moreover from generateRandomCode_shape [OF draws, of p]
  have "length (generateRandomCode rnd p) = 5"
    and "set (generateRandomCode rnd p) \<subseteq> set ''0123456789ABCDEFGHIJKLMNOPQRSTUVWXYZ''"
    by (simp_all add: chars_def)
  ultimately show ?thesis by blast
qed

lemma deliver_mongo_grows: "set (mongo s) \<subseteq> set (mongo (deliver e s))"
  by (cases e) (auto simp add: save_new_simple split: sum.splits if_splits)

lemma fold_deliver_mongo_grows: "set (mongo s) \<subseteq> set (mongo (fold deliver es s))"
proof (induction es arbitrary: s)
  case Nil
  show ?case by simp
next
  case (Cons e es)
  have "set (mongo s) \<subseteq> set (mongo (deliver e s))" by (rule deliver_mongo_grows)
  also have "\<dots> \<subseteq> set (mongo (fold deliver es (deliver e s)))" by (rule Cons.IH)
  finally show ?case by simp
qed

lemma await_mongo_grows: "set (mongo s) \<subseteq> set (mongo (await sched k s))"
  by (simp add: await_def fold_deliver_mongo_grows)

lemma unique_reference_id_mongo_grows:
  assumes "unique_reference_id sched rnd k pos log s = Some r"
  shows "set (mongo s) \<subseteq> set (mongo (snd (snd (snd r))))"
  using assms
proof (induction rule: unique_reference_id_induct)
  case (found_memory k pos log s)
  show ?case by simp
next
  case (retry_memory k pos log s r)
  then show ?case by simp
next
  case (found_durable k pos log s)
  show ?case using await_mongo_grows [of s sched k] by simp
next
  case (retry_durable k pos log s r)
  then show ?case using await_mongo_grows [of s sched k] by blast
qed

lemma store_certificate_created_durable:
  assumes "\<not> useInMemoryStore s"
    and "status (store_certificate sched k rid nm em now log s) = 200"
  shows "rid \<notin> reference_id ` set (mongo s)"
  using assms
  by (auto simp add: store_certificate_def save_new_simple new_certificate_def respond_def
      split: if_splits)

text \<open>
  A request that creates a record while no event selects the array during its awaits (or
  that starts with the array selected) gives it an id that no record of the store
  selected at its start has.
\<close>

lemma created_reference_id_fresh_steady:
  assumes run: "simple_generate sched rnd now name email s = Some out"
    and steady: "useInMemoryStore s \<or> calm sched"
    and created: "status out = 200" "\<not> existing (body out)"
  shows "generated_id (body out) \<notin> reference_id ` set (active_store s)"
proof (cases "useInMemoryStore s")
  case True
  then have "sched = quiet \<or> useInMemoryStore s" by simp
  from simple_generate_alone [OF run this created(1)] created(2) show ?thesis
    by (auto simp add: existing_body_def)
next
  case False
  with steady have calm: "calm sched" by simp
  from simple_generate_200 [OF run created(1)] obtain n e where
    ne: "name = JStr n" "email = JStr e" "n \<noteq> []" "e \<noteq> []"
    and re: "regex_test emailRegex (toLowerCase (trim e))"
    by blast
  let ?em = "toLowerCase (trim e)"
  let ?s1 = "await sched 0 s"
  note v = simple_generate_valid [OF ne(3,4) re, of sched rnd now s]
  have none: "find (\<lambda>c. user_email c = ?em) (active_store s) = None"
  proof (cases "find (\<lambda>c. user_email c = ?em) (active_store s)")
    case None
    then show ?thesis .
  next
    case (Some c)
    with v run ne created(2) show ?thesis
      by (auto simp add: respond_def existing_body_def)
  qed
  with v run ne False have "generate_fresh sched rnd now (trim n) ?em 1
      [(selected s, Find_by_email)] ?s1 = Some out"
    by simp
  then obtain rid k' log' pre where
    r: "unique_reference_id sched rnd 1 0 [(selected s, Find_by_email)] ?s1
          = Some (rid, k', log', pre)"
    and out: "out = store_certificate sched k' rid (trim n) ?em now log' pre"
    by (auto simp add: generate_fresh_def split: option.splits)
  have d1: "\<not> useInMemoryStore ?s1"
    using calm False by (rule await_stays_durable)
  from unique_reference_id_calm [OF r calm d1] have dpre: "\<not> useInMemoryStore pre"
    by auto
  have "set (mongo s) \<subseteq> set (mongo ?s1)" by (rule await_mongo_grows)
  moreover from unique_reference_id_mongo_grows [OF r]
  have "set (mongo ?s1) \<subseteq> set (mongo pre)" by simp
  ultimately have grows: "set (mongo s) \<subseteq> set (mongo pre)" by blast
  from store_certificate_created_durable [OF dpre] created(1) out
  have "rid \<notin> reference_id ` set (mongo pre)" by simp
  with grows have "rid \<notin> reference_id ` set (mongo s)" by blast
  moreover have "generated_id (body out) = rid"
    using store_certificate_body [of sched k' rid "trim n" ?em now log' pre] out created(1)
    by auto
  ultimately show ?thesis using False by (simp add: active_store_def)
qed

text \<open>
  C2. The reference id of a created record is to be distinct from the id of every record
  of the backend that is active when the record is created (the loop of lines 188 to 197
  is there to \<open>Ensure uniqueness\<close>). It is not in this run: the durable collection is
  selected and empty, the array holds a record with the id \<open>CSAC2025-00000\<close>, the draws
  give \<open>00000\<close>, and \<open>disconnected\<close> fires while the request awaits its check of this id
  against the durable collection. The check finds nothing, line 200 reads the flag again,
  and the record is pushed into the array without a check there: the array, now the
  active store, holds the id twice. The format of the id is as the claim says.
\<close>

theorem flip_during_id_check_duplicates_id:
  "reference_id cert_a = ''CSAC2025-00000''
   \<and> simple_generate (at_await 1 [Disconnected]) (always 0) 9 (JStr ''Bob'')
       (JStr ''bob@example.com'')
       \<lparr> useInMemoryStore = False, inMemoryStore = [cert_a], mongo = [] \<rparr>
     = Some (respond 200
               (Generated False ''CSAC2025-00000'' ''Bob'' ''bob@example.com''
                  ''Certificate generated successfully (in-memory)!'')
               [(Durable, Find_by_email), (Durable, Find_by_reference_id), (InMemory, Insert)]
               \<lparr> useInMemoryStore = True,
                 inMemoryStore =
                   [cert_a, new_certificate ''CSAC2025-00000'' ''Bob'' ''bob@example.com'' 9],
                 mongo = [] \<rparr>)"
  by code_simp

theorem flip_during_id_check_duplicates_id_witness:
  "\<exists>out. simple_generate (at_await 1 [Disconnected]) (always 0) 9 (JStr ''Bob'')
            (JStr ''bob@example.com'')
            \<lparr> useInMemoryStore = False, inMemoryStore = [cert_a], mongo = [] \<rparr> = Some out
       \<and> status out = 200
       \<and> generated_id (body out) = ''CSAC2025-00000''
       \<and> map reference_id (active_store (final out)) = [''CSAC2025-00000'', ''CSAC2025-00000'']"
  using flip_during_id_check_duplicates_id
  by (simp add: respond_def active_store_def new_certificate_def)

end
